theory Spec2Isabelle
  imports Complex_Main
begin

section \<open>Values shared by all modules\<close>

text \<open>
  Python's \<open>float\<close> values. The three IEEE special values are kept apart, because the
  code compares against \<open>float("inf")\<close> and the cleaning step turns unreadable cells into
  NaN. A finite float is represented by the real number it denotes, and addition of finite
  values is exact (rounding is outside this development).
\<close>

datatype pyfloat = Fin real | PInf | NInf | NaN

text \<open>\<open>a + b\<close> on floats.\<close>

fun fadd :: "pyfloat \<Rightarrow> pyfloat \<Rightarrow> pyfloat" where
  "fadd NaN _ = NaN"
| "fadd _ NaN = NaN"
| "fadd PInf NInf = NaN"
| "fadd NInf PInf = NaN"
| "fadd PInf _ = PInf"
| "fadd _ PInf = PInf"
| "fadd NInf _ = NInf"
| "fadd _ NInf = NInf"
| "fadd (Fin a) (Fin b) = Fin (a + b)"

text \<open>\<open>a < b\<close> on floats: every comparison with NaN is false.\<close>

fun flt :: "pyfloat \<Rightarrow> pyfloat \<Rightarrow> bool" where
  "flt NaN _ = False"
| "flt _ NaN = False"
| "flt PInf _ = False"
| "flt _ NInf = False"
| "flt NInf _ = True"
| "flt _ PInf = True"
| "flt (Fin a) (Fin b) = (a < b)"

text \<open>\<open>a == b\<close> on floats: NaN is not equal to itself.\<close>

fun feq :: "pyfloat \<Rightarrow> pyfloat \<Rightarrow> bool" where
  "feq NaN _ = False"
| "feq _ NaN = False"
| "feq a b = (a = b)"

text \<open>
  The exceptions the modelled code can raise. The message of a \<open>ValueError\<close> is not
  modelled.
\<close>

datatype error = ValueError | IndexError | KeyError | TypeError

section \<open>airline\_rules.py\<close>

definition AIRLINE_HUBS :: "string \<rightharpoonup> string" where
  "AIRLINE_HUBS = [''Qatar Airways'' \<mapsto> ''Doha'', ''Emirates'' \<mapsto> ''Dubai'',
     ''Etihad'' \<mapsto> ''Abu Dhabi'']"

definition SUPPORTED_AIRLINES :: "string set" where
  "SUPPORTED_AIRLINES = dom AIRLINE_HUBS"

definition excluded_qatar :: "string set" where
  "excluded_qatar = {
     ''Vancouver'', ''Adelaide'', ''Wellington'', ''Perth'', ''Brisbane'',
     ''Denver'', ''Phoenix'', ''Orlando'', ''Detroit'', ''Minneapolis'',
     ''Cleveland'', ''St. Louis'', ''Tampa'', ''Baltimore'', ''Pittsburgh'',
     ''Charlotte'', ''Austin'', ''San Diego'', ''Portland'', ''Sacramento'',
     ''Bogota'', ''Lima'', ''Santiago'', ''Mexico City'', ''Lagos''}"

definition excluded_emirates :: "string set" where
  "excluded_emirates = {
     ''Vancouver'', ''Adelaide'', ''Wellington'', ''Perth'', ''Brisbane'',
     ''Denver'', ''Phoenix'', ''Orlando'', ''Detroit'', ''Minneapolis'',
     ''Cleveland'', ''St. Louis'', ''Tampa'', ''Baltimore'', ''Pittsburgh'',
     ''Charlotte'', ''Austin'', ''San Diego'', ''Portland'', ''Sacramento'',
     ''Zanzibar'', ''Kampala'', ''Lusaka'', ''Harare'',
     ''Bogota'', ''Lima'', ''Santiago'', ''Mexico City''}"

definition excluded_etihad :: "string set" where
  "excluded_etihad = {
     ''Vancouver'', ''Adelaide'', ''Wellington'', ''Perth'', ''Brisbane'',
     ''Denver'', ''Phoenix'', ''Orlando'', ''Detroit'', ''Minneapolis'',
     ''Cleveland'', ''St. Louis'', ''Tampa'', ''Baltimore'', ''Pittsburgh'',
     ''Charlotte'', ''Austin'', ''San Diego'', ''Portland'', ''Sacramento'',
     ''Mexico City'', ''Bogota'', ''Lima'', ''Santiago'',
     ''Rio de Janeiro'', ''Sao Paulo'', ''Buenos Aires'',
     ''Lagos'', ''Accra'', ''Cape Town'', ''Zanzibar''}"

definition AIRLINE_EXCLUDED_CITIES :: "string \<rightharpoonup> string set" where
  "AIRLINE_EXCLUDED_CITIES = [''Qatar Airways'' \<mapsto> excluded_qatar,
     ''Emirates'' \<mapsto> excluded_emirates, ''Etihad'' \<mapsto> excluded_etihad]"

text \<open>\<open>AIRLINE_EXCLUDED_CITIES.get(airline, set())\<close>: an unknown airline excludes nothing.\<close>

definition excluded_of :: "string \<Rightarrow> string set" where
  "excluded_of airline =
     (case AIRLINE_EXCLUDED_CITIES airline of None \<Rightarrow> {} | Some s \<Rightarrow> s)"

definition airline_serves_city :: "string \<Rightarrow> string \<Rightarrow> bool" where
  "airline_serves_city airline city =
     (if city \<in> {''Doha'', ''Dubai'', ''Abu Dhabi''} then True
      else city \<notin> excluded_of airline)"

definition get_hub :: "string \<Rightarrow> error + string" where
  "get_hub airline =
     (case AIRLINE_HUBS airline of None \<Rightarrow> Inl ValueError | Some h \<Rightarrow> Inr h)"

text \<open>The set comprehension \<open>{get_hub(a) for a in airlines}\<close>; the first failing lookup raises.\<close>

fun get_hubs_for_airlines :: "string list \<Rightarrow> error + string set" where
  "get_hubs_for_airlines [] = Inr {}"
| "get_hubs_for_airlines (a # as) =
     (case get_hub a of
        Inl e \<Rightarrow> Inl e
      | Inr h \<Rightarrow> (case get_hubs_for_airlines as of
                   Inl e \<Rightarrow> Inl e
                 | Inr hs \<Rightarrow> Inr (insert h hs)))"


section \<open>data\_loader.py\<close>

text \<open>
  A row of the airport table after the column selection and the type coercions of
  \<open>clean_airport_data\<close>: \<open>City\<close> and \<open>Country\<close> are strings (\<open>astype(str)\<close>, so a city
  is never missing at this point), the five numeric columns are floats, with NaN where
  \<open>pd.to_numeric(errors="coerce")\<close> could not read the cell. A DataFrame is the list of its
  rows in index order.
\<close>

record city_row =
  City :: string
  Country :: string
  Latitude :: pyfloat
  Longitude :: pyfloat
  Distance_to_Doha :: pyfloat
  Distance_to_Dubai :: pyfloat
  Distance_to_Abu_Dhabi :: pyfloat

type_synonym dataframe = "city_row list"

text \<open>\<open>df.dropna(subset=["City", "Latitude", "Longitude"])\<close>.\<close>

definition dropna :: "dataframe \<Rightarrow> dataframe" where
  "dropna df = filter (\<lambda>r. Latitude r \<noteq> NaN \<and> Longitude r \<noteq> NaN) df"

text \<open>\<open>df.drop_duplicates(subset=["City", "Country"], keep="first")\<close>.\<close>

fun drop_duplicates :: "(string \<times> string) list \<Rightarrow> dataframe \<Rightarrow> dataframe" where
  "drop_duplicates seen [] = []"
| "drop_duplicates seen (r # rs) =
     (if (City r, Country r) \<in> set seen then drop_duplicates seen rs
      else r # drop_duplicates ((City r, Country r) # seen) rs)"

text \<open>The two row filters that end \<open>clean_airport_data\<close>.\<close>

definition clean_airport_data :: "dataframe \<Rightarrow> dataframe" where
  "clean_airport_data df = drop_duplicates [] (dropna df)"

section \<open>graph\_builder.py\<close>

text \<open>
  An edge is \<open>(neighbor_index, weight_km, airline_or_None)\<close>. Node indices come from
  \<open>enumerate\<close>, so they are natural numbers; reading a list beyond its end raises
  \<open>IndexError\<close>.
\<close>

type_synonym edge = "nat \<times> pyfloat \<times> string option"

text \<open>\<open>{c: i for i, c in enumerate(cities)}\<close>: a later row overwrites an earlier one.\<close>

definition city_index_map :: "string list \<Rightarrow> (string \<rightharpoonup> nat)" where
  "city_index_map cities = fold (\<lambda>(i, c) m. m(c \<mapsto> i)) (enumerate 0 cities) Map.empty"

text \<open>\<open>{i: c for i, c in enumerate(cities)}\<close>.\<close>

definition index_city_map :: "string list \<Rightarrow> (nat \<rightharpoonup> string)" where
  "index_city_map cities = fold (\<lambda>(i, c) m. m(i \<mapsto> c)) (enumerate 0 cities) Map.empty"

text \<open>\<open>df[df["City"] == a].iloc[0]\<close>: the first row of that name, \<open>IndexError\<close> without one.\<close>

definition first_row :: "dataframe \<Rightarrow> string \<Rightarrow> error + city_row" where
  "first_row df a = (case filter (\<lambda>r. City r = a) df of [] \<Rightarrow> Inl IndexError | r # _ \<Rightarrow> Inr r)"

text \<open>The local function \<open>dist\<close> of \<open>build_graph\<close>.\<close>

definition dist_km :: "dataframe \<Rightarrow> string \<Rightarrow> string \<Rightarrow> error + pyfloat" where
  "dist_km df a b =
     (if a = b then Inr (Fin 0)
      else case first_row df a of
        Inl e \<Rightarrow> Inl e
      | Inr row_a \<Rightarrow>
         (case first_row df b of
            Inl e \<Rightarrow> Inl e
          | Inr row_b \<Rightarrow>
              if a = ''Doha'' then Inr (Distance_to_Doha row_b)
              else if a = ''Dubai'' then Inr (Distance_to_Dubai row_b)
              else if a = ''Abu Dhabi'' then Inr (Distance_to_Abu_Dhabi row_b)
              else if b = ''Doha'' then Inr (Distance_to_Doha row_a)
              else if b = ''Dubai'' then Inr (Distance_to_Dubai row_a)
              else if b = ''Abu Dhabi'' then Inr (Distance_to_Abu_Dhabi row_a)
              else Inr PInf))"

text \<open>\<open>adjacency_list[i].append(e)\<close>.\<close>

definition append_edge :: "edge list list \<Rightarrow> nat \<Rightarrow> edge \<Rightarrow> error + edge list list" where
  "append_edge adj i e = (if i < length adj then Inr (adj[i := adj ! i @ [e]]) else Inl IndexError)"

text \<open>The inner loop \<open>for c in cities\<close> of \<open>build_graph\<close>, for one airline with hub index \<open>hi\<close>.\<close>

fun add_city_edges ::
  "dataframe \<Rightarrow> (string \<rightharpoonup> nat) \<Rightarrow> string \<Rightarrow> string \<Rightarrow> nat \<Rightarrow> string list \<Rightarrow>
   edge list list \<Rightarrow> error + edge list list" where
  "add_city_edges df city_to_index airline hub hi [] adj = Inr adj"
| "add_city_edges df city_to_index airline hub hi (c # cs) adj =
     (if c = hub then add_city_edges df city_to_index airline hub hi cs adj
      else if \<not> airline_serves_city airline c
        then add_city_edges df city_to_index airline hub hi cs adj
      else case city_to_index c of
        None \<Rightarrow> Inl KeyError
      | Some ci \<Rightarrow>
         (case dist_km df hub c of
            Inl e \<Rightarrow> Inl e
          | Inr d \<Rightarrow>
              if feq d PInf then add_city_edges df city_to_index airline hub hi cs adj
              else (case append_edge adj hi (ci, d, Some airline) of
                      Inl e \<Rightarrow> Inl e
                    | Inr adj1 \<Rightarrow>
                       (case append_edge adj1 ci (hi, d, Some airline) of
                          Inl e \<Rightarrow> Inl e
                        | Inr adj2 \<Rightarrow>
                            add_city_edges df city_to_index airline hub hi cs adj2))))"

text \<open>The outer loop \<open>for airline in airlines\<close> of \<open>build_graph\<close>.\<close>

fun add_airline_edges ::
  "dataframe \<Rightarrow> (string \<rightharpoonup> nat) \<Rightarrow> string list \<Rightarrow> string list \<Rightarrow>
   edge list list \<Rightarrow> error + edge list list" where
  "add_airline_edges df city_to_index cities [] adj = Inr adj"
| "add_airline_edges df city_to_index cities (airline # rest) adj =
     (case get_hub airline of
        Inl e \<Rightarrow> Inl e
      | Inr hub \<Rightarrow>
         (case city_to_index hub of
            None \<Rightarrow> add_airline_edges df city_to_index cities rest adj
          | Some hi \<Rightarrow>
             (case add_city_edges df city_to_index airline hub hi cities adj of
                Inl e \<Rightarrow> Inl e
              | Inr adj1 \<Rightarrow> add_airline_edges df city_to_index cities rest adj1)))"

definition build_graph ::
  "dataframe \<Rightarrow> string list \<Rightarrow>
   error + (edge list list \<times> (string \<rightharpoonup> nat) \<times> (nat \<rightharpoonup> string) \<times> dataframe)" where
  "build_graph df airlines =
     (if \<exists>a \<in> set airlines. a \<notin> SUPPORTED_AIRLINES then Inl ValueError
      else
        let cities = map City df;
            city_to_index = city_index_map cities;
            index_to_city = index_city_map cities;
            n = length cities
        in case add_airline_edges df city_to_index cities airlines (replicate n []) of
             Inl e \<Rightarrow> Inl e
           | Inr adjacency_list \<Rightarrow> Inr (adjacency_list, city_to_index, index_to_city, df))"

section \<open>dijkstra.py\<close>

text \<open>
  The arrays \<open>dist\<close> and \<open>prev\<close> and the priority queue of a search. \<open>heapq\<close> keeps its
  list in heap order; \<open>heappop\<close> returns the least entry of the list, whatever that order
  is, so the queue is modelled by the list of its entries. Entries are tuples
  \<open>(distance, node)\<close>, compared as Python compares tuples. An entry is pushed only after
  \<open>new_d < dist[v]\<close> held, so no NaN enters the queue and the entries are totally ordered.
\<close>

record 'p search_state =
  dist_arr :: "pyfloat list"
  prev_arr :: "'p option list"
  heap :: "(pyfloat \<times> nat) list"

definition entry_lt :: "pyfloat \<times> nat \<Rightarrow> pyfloat \<times> nat \<Rightarrow> bool" where
  "entry_lt x y = (if feq (fst x) (fst y) then snd x < snd y else flt (fst x) (fst y))"

fun heap_min :: "pyfloat \<times> nat \<Rightarrow> (pyfloat \<times> nat) list \<Rightarrow> pyfloat \<times> nat" where
  "heap_min m [] = m"
| "heap_min m (x # xs) = heap_min (if entry_lt x m then x else m) xs"

definition heappop :: "(pyfloat \<times> nat) list \<Rightarrow> error + ((pyfloat \<times> nat) \<times> (pyfloat \<times> nat) list)" where
  "heappop h = (case h of [] \<Rightarrow> Inl IndexError
                | x # xs \<Rightarrow> (let m = heap_min x xs in Inr (m, remove1 m h)))"

definition heappush :: "(pyfloat \<times> nat) list \<Rightarrow> pyfloat \<times> nat \<Rightarrow> (pyfloat \<times> nat) list" where
  "heappush h x = h @ [x]"

text \<open>The loop \<open>for v, w, airline in adjacency_list[u]\<close> of \<open>dijkstra_airline_aware\<close>.\<close>

fun relax_edges ::
  "pyfloat \<Rightarrow> nat \<Rightarrow> edge list \<Rightarrow> (nat \<times> string option) search_state \<Rightarrow>
   error + (nat \<times> string option) search_state" where
  "relax_edges d u [] s = Inr s"
| "relax_edges d u ((v, w, airline) # es) s =
     (let new_d = fadd d w in
      if length (dist_arr s) \<le> v then Inl IndexError
      else if flt new_d (dist_arr s ! v) then
        (if length (prev_arr s) \<le> v then Inl IndexError
         else relax_edges d u es
                (s\<lparr>dist_arr := (dist_arr s)[v := new_d],
                   prev_arr := (prev_arr s)[v := Some (u, airline)],
                   heap := heappush (heap s) (new_d, v)\<rparr>))
      else relax_edges d u es s)"

text \<open>
  The loop \<open>while heap\<close> of \<open>dijkstra_airline_aware\<close>. The result is \<open>None\<close> when the
  loop does not end.
\<close>

partial_function (option) dijkstra_loop ::
  "edge list list \<Rightarrow> nat \<Rightarrow> (nat \<times> string option) search_state \<Rightarrow>
   (error + (nat \<times> string option) search_state) option" where
  "dijkstra_loop adjacency_list dst s =
     (if heap s = [] then Some (Inr s)
      else case heappop (heap s) of
        Inl e \<Rightarrow> Some (Inl e)
      | Inr ((d, u), h) \<Rightarrow>
          if length (dist_arr s) \<le> u then Some (Inl IndexError)
          else if flt (dist_arr s ! u) d then dijkstra_loop adjacency_list dst (s\<lparr>heap := h\<rparr>)
          else if u = dst then Some (Inr (s\<lparr>heap := h\<rparr>))
          else if length adjacency_list \<le> u then Some (Inl IndexError)
          else (case relax_edges d u (adjacency_list ! u) (s\<lparr>heap := h\<rparr>) of
                  Inl e \<Rightarrow> Some (Inl e)
                | Inr s2 \<Rightarrow> dijkstra_loop adjacency_list dst s2))"

text \<open>
  The loop that follows \<open>prev\<close> from the destination; \<open>None\<close> when it does not end.
\<close>

partial_function (option) walk_back ::
  "(nat \<times> string option) option list \<Rightarrow> nat \<Rightarrow> nat list \<Rightarrow> (error + nat list) option" where
  "walk_back prev cur path_indices =
     (if length prev \<le> cur then Some (Inl IndexError)
      else case prev ! cur of
        None \<Rightarrow> Some (Inr (path_indices @ [cur]))
      | Some pr \<Rightarrow> walk_back prev (fst pr) (path_indices @ [cur]))"

text \<open>\<open>[index_to_city[i] for i in path_indices]\<close>.\<close>

fun lookup_cities :: "(nat \<rightharpoonup> string) \<Rightarrow> nat list \<Rightarrow> error + string list" where
  "lookup_cities index_to_city [] = Inr []"
| "lookup_cities index_to_city (i # is) =
     (case index_to_city i of
        None \<Rightarrow> Inl KeyError
      | Some c \<Rightarrow> (case lookup_cities index_to_city is of
                    Inl e \<Rightarrow> Inl e
                  | Inr cs \<Rightarrow> Inr (c # cs)))"

text \<open>The loop \<open>for k in range(len(path_indices) - 1)\<close> that builds the segments.\<close>

fun build_segments ::
  "(nat \<rightharpoonup> string) \<Rightarrow> (nat \<times> string option) option list \<Rightarrow> nat list \<Rightarrow>
   error + (string \<times> string \<times> string option) list" where
  "build_segments index_to_city prev (u # v # rest) =
     (if length prev \<le> v then Inl IndexError
      else case prev ! v of
        None \<Rightarrow> Inl TypeError
      | Some pr \<Rightarrow>
         (case index_to_city u of
            None \<Rightarrow> Inl KeyError
          | Some cu \<Rightarrow>
             (case index_to_city v of
                None \<Rightarrow> Inl KeyError
              | Some cv \<Rightarrow>
                 (case build_segments index_to_city prev (v # rest) of
                    Inl e \<Rightarrow> Inl e
                  | Inr segments \<Rightarrow> Inr ((cu, cv, snd pr) # segments)))))"
| "build_segments index_to_city prev path_indices = Inr []"

type_synonym path_result = "pyfloat \<times> string list \<times> (string \<times> string \<times> string option) list"

text \<open>
  The outcome of a search: \<open>None\<close> when a loop does not end, \<open>Some (Inl e)\<close> when \<open>e\<close> is
  raised, \<open>Some (Inr None)\<close> when Python's \<open>None\<close> is returned, and
  \<open>Some (Inr (Some r))\<close> when the result \<open>r\<close> is returned.
\<close>

definition initial_state :: "nat \<Rightarrow> nat \<Rightarrow> 'p search_state" where
  "initial_state n src =
     \<lparr>dist_arr = (replicate n PInf)[src := Fin 0], prev_arr = replicate n None,
      heap = [(Fin 0, src)]\<rparr>"

definition reconstruct ::
  "(nat \<rightharpoonup> string) \<Rightarrow> (nat \<times> string option) search_state \<Rightarrow> nat \<Rightarrow>
   (error + path_result option) option" where
  "reconstruct index_to_city s dst =
     (if length (dist_arr s) \<le> dst then Some (Inl IndexError)
      else if feq (dist_arr s ! dst) PInf then Some (Inr None)
      else case walk_back (prev_arr s) dst [] of
        None \<Rightarrow> None
      | Some (Inl e) \<Rightarrow> Some (Inl e)
      | Some (Inr path) \<Rightarrow>
         (let path_indices = rev path in
          case lookup_cities index_to_city path_indices of
            Inl e \<Rightarrow> Some (Inl e)
          | Inr path_cities \<Rightarrow>
             (case build_segments index_to_city (prev_arr s) path_indices of
                Inl e \<Rightarrow> Some (Inl e)
              | Inr segments \<Rightarrow> Some (Inr (Some (dist_arr s ! dst, path_cities, segments))))))"

definition dijkstra_airline_aware ::
  "edge list list \<Rightarrow> (string \<rightharpoonup> nat) \<Rightarrow> (nat \<rightharpoonup> string) \<Rightarrow> string \<Rightarrow> string \<Rightarrow>
   string list \<Rightarrow> (error + path_result option) option" where
  "dijkstra_airline_aware adjacency_list city_to_index index_to_city source dest airlines =
     (case city_to_index source of
        None \<Rightarrow> Some (Inr None)
      | Some src \<Rightarrow>
         (case city_to_index dest of
            None \<Rightarrow> Some (Inr None)
          | Some dst \<Rightarrow>
              let n = length adjacency_list in
              if n \<le> src then Some (Inl IndexError)
              else case dijkstra_loop adjacency_list dst (initial_state n src) of
                None \<Rightarrow> None
              | Some (Inl e) \<Rightarrow> Some (Inl e)
              | Some (Inr s) \<Rightarrow> reconstruct index_to_city s dst))"






section \<open>Graphs, paths and weights\<close>

text \<open>A finite, non-negative float: what an edge weight of a route graph is.\<close>

definition nonneg_fin :: "pyfloat \<Rightarrow> bool" where
  "nonneg_fin a = (case a of Fin x \<Rightarrow> 0 \<le> x | _ \<Rightarrow> False)"

text \<open>\<open>a <= b\<close> on floats.\<close>

definition fle :: "pyfloat \<Rightarrow> pyfloat \<Rightarrow> bool" where
  "fle a b = (flt a b \<or> feq a b)"

text \<open>
  A well-formed adjacency structure: every neighbour index is a node and every weight is
  finite and non-negative.
\<close>

definition wf_graph :: "edge list list \<Rightarrow> bool" where
  "wf_graph adj = (\<forall>es \<in> set adj. \<forall>e \<in> set es. fst e < length adj \<and> nonneg_fin (fst (snd e)))"

text \<open>
  \<open>is_path adj u es t\<close>: the edges \<open>es\<close>, taken in order from node \<open>u\<close>, are edges of
  the graph and lead to node \<open>t\<close>.
\<close>

fun is_path :: "edge list list \<Rightarrow> nat \<Rightarrow> edge list \<Rightarrow> nat \<Rightarrow> bool" where
  "is_path adj u [] t = (u = t)"
| "is_path adj u (e # es) t = (u < length adj \<and> e \<in> set (adj ! u) \<and> is_path adj (fst e) es t)"

text \<open>
  The weight of a path: its edge weights added from left to right, starting from
  \<open>0.0\<close>, as the search accumulates them.
\<close>

definition walk_weight :: "pyfloat \<Rightarrow> edge list \<Rightarrow> pyfloat" where
  "walk_weight a es = foldl fadd a (map (\<lambda>e. fst (snd e)) es)"


text \<open>A tentative distance: infinite, or finite and non-negative.\<close>

definition ext :: "pyfloat \<Rightarrow> bool" where
  "ext a = (a = PInf \<or> nonneg_fin a)"

text \<open>
  The invariant of the search loop. \<open>D\<close> is the set of nodes that were expanded. A tree
  path follows \<open>prev\<close> and passes through expanded nodes only.
\<close>

type_synonym astate = "(nat \<times> string option) search_state"



definition relaxed :: "astate \<Rightarrow> nat \<Rightarrow> edge list \<Rightarrow> bool" where
  "relaxed s u es = (\<forall>e\<in>set es. fle (dist_arr s ! fst e) (fadd (dist_arr s ! u) (fst (snd e))))"






text \<open>The state of \<open>dijkstra_standard\<close> that corresponds to a state of the airline-aware search.\<close>

definition forget_airline :: "astate \<Rightarrow> nat search_state" where
  "forget_airline s =
     \<lparr>dist_arr = dist_arr s, prev_arr = map (map_option fst) (prev_arr s), heap = heap s\<rparr>"

text \<open>The cities that every airline excludes.\<close>

definition common_core :: "string set" where
  "common_core = {
     ''Vancouver'', ''Adelaide'', ''Wellington'', ''Perth'', ''Brisbane'',
     ''Denver'', ''Phoenix'', ''Orlando'', ''Detroit'', ''Minneapolis'',
     ''Cleveland'', ''St. Louis'', ''Tampa'', ''Baltimore'', ''Pittsburgh'',
     ''Charlotte'', ''Austin'', ''San Diego'', ''Portland'', ''Sacramento'',
     ''Bogota'', ''Lima'', ''Santiago'', ''Mexico City''}"

text \<open>
  The edges that \<open>build_graph\<close> puts into the list of node \<open>u\<close>: for one city of one
  airline, for all cities of one airline, and for all airlines.
\<close>

definition city_edge_pair ::
  "dataframe \<Rightarrow> (string \<rightharpoonup> nat) \<Rightarrow> string \<Rightarrow> string \<Rightarrow> nat \<Rightarrow> string \<Rightarrow> nat \<Rightarrow> edge set" where
  "city_edge_pair df city_to_index airline hub hi c u =
     {(v, w, Some airline) | v w ci.
        c \<noteq> hub \<and> airline_serves_city airline c \<and> city_to_index c = Some ci \<and>
        dist_km df hub c = Inr w \<and> \<not> feq w PInf \<and> ((u = hi \<and> v = ci) \<or> (u = ci \<and> v = hi))}"

definition city_edges ::
  "dataframe \<Rightarrow> (string \<rightharpoonup> nat) \<Rightarrow> string \<Rightarrow> string \<Rightarrow> nat \<Rightarrow> string list \<Rightarrow> nat \<Rightarrow> edge set" where
  "city_edges df city_to_index airline hub hi cs u =
     (\<Union>c\<in>set cs. city_edge_pair df city_to_index airline hub hi c u)"

definition airline_edges ::
  "dataframe \<Rightarrow> (string \<rightharpoonup> nat) \<Rightarrow> string list \<Rightarrow> string list \<Rightarrow> nat \<Rightarrow> edge set" where
  "airline_edges df city_to_index cities airlines u =
     {e. \<exists>a hub hi. a \<in> set airlines \<and> get_hub a = Inr hub \<and> city_to_index hub = Some hi \<and>
        e \<in> city_edges df city_to_index a hub hi cities u}"





text \<open>
  A small table, and the graphs that \<open>build_graph\<close> makes of it for Qatar Airways alone
  and for Qatar Airways with Emirates.
\<close>

definition demo_row :: "string \<Rightarrow> string \<Rightarrow> real \<Rightarrow> real \<Rightarrow> real \<Rightarrow> city_row" where
  "demo_row c k a b d =
     \<lparr>City = c, Country = k, Latitude = Fin 0, Longitude = Fin 0,
      Distance_to_Doha = Fin a, Distance_to_Dubai = Fin b, Distance_to_Abu_Dhabi = Fin d\<rparr>"

definition demo_table :: dataframe where
  "demo_table =
     [demo_row ''Doha'' ''Qatar'' 0 380 320,
      demo_row ''Dubai'' ''United Arab Emirates'' 380 0 130,
      demo_row ''London'' ''United Kingdom'' 5200 5500 5500,
      demo_row ''Mumbai'' ''India'' 2300 1900 2000]"

definition demo_c2i :: "string \<rightharpoonup> nat" where
  "demo_c2i = city_index_map (map City demo_table)"

definition demo_i2c :: "nat \<rightharpoonup> string" where
  "demo_i2c = index_city_map (map City demo_table)"

definition demo_adj_qatar :: "edge list list" where
  "demo_adj_qatar =
     [[(1, Fin 380, Some ''Qatar Airways''), (2, Fin 5200, Some ''Qatar Airways''),
       (3, Fin 2300, Some ''Qatar Airways'')],
      [(0, Fin 380, Some ''Qatar Airways'')],
      [(0, Fin 5200, Some ''Qatar Airways'')],
      [(0, Fin 2300, Some ''Qatar Airways'')]]"


text \<open>
  The column of a row that holds the distance to a hub, and the edge rule of the builder
  for a table whose city names are pairwise distinct: \<open>h\<close> is the row of the hub of a
  requested airline \<open>a\<close>, \<open>c\<close> the row of another city that \<open>a\<close> serves, the weight is the
  distance of \<open>c\<close> to that hub and is not \<open>+inf\<close>, and the edge joins the two rows in
  either direction.
\<close>

definition hub_distance :: "string \<Rightarrow> city_row \<Rightarrow> pyfloat" where
  "hub_distance hub r =
     (if hub = ''Doha'' then Distance_to_Doha r
      else if hub = ''Dubai'' then Distance_to_Dubai r
      else Distance_to_Abu_Dhabi r)"

definition hub_edge :: "dataframe \<Rightarrow> string list \<Rightarrow> nat \<Rightarrow> nat \<Rightarrow> pyfloat \<Rightarrow> string option \<Rightarrow> bool" where
  "hub_edge df airlines u v w l =
     (\<exists>a h c. a \<in> set airlines \<and> h < length df \<and> c < length df \<and>
        get_hub a = Inr (City (df ! h)) \<and> c \<noteq> h \<and>
        airline_serves_city a (City (df ! c)) \<and>
        w = hub_distance (City (df ! h)) (df ! c) \<and> \<not> feq w PInf \<and> l = Some a \<and>
        ((u = h \<and> v = c) \<or> (u = c \<and> v = h)))"

text \<open>
  Two tables that pass the cleaning step: one with an unreadable distance, one with two
  cities of the same name in different countries (and the adjacency structure built of it).
\<close>

definition nan_table :: dataframe where
  "nan_table =
     [\<lparr>City = ''Doha'', Country = ''Qatar'', Latitude = Fin 25, Longitude = Fin 51,
       Distance_to_Doha = Fin 0, Distance_to_Dubai = Fin 380, Distance_to_Abu_Dhabi = Fin 320\<rparr>,
      \<lparr>City = ''London'', Country = ''United Kingdom'', Latitude = Fin 51, Longitude = Fin 0,
       Distance_to_Doha = NaN, Distance_to_Dubai = Fin 5500, Distance_to_Abu_Dhabi = Fin 5500\<rparr>]"

definition twin_table :: dataframe where
  "twin_table =
     [\<lparr>City = ''Doha'', Country = ''Qatar'', Latitude = Fin 25, Longitude = Fin 51,
       Distance_to_Doha = Fin 0, Distance_to_Dubai = Fin 380, Distance_to_Abu_Dhabi = Fin 320\<rparr>,
      \<lparr>City = ''Springfield'', Country = ''United States'', Latitude = Fin 39, Longitude = Fin (-89),
       Distance_to_Doha = Fin 11600, Distance_to_Dubai = Fin 11900,
       Distance_to_Abu_Dhabi = Fin 11950\<rparr>,
      \<lparr>City = ''Springfield'', Country = ''Canada'', Latitude = Fin 49, Longitude = Fin (-96),
       Distance_to_Doha = Fin 10800, Distance_to_Dubai = Fin 11100,
       Distance_to_Abu_Dhabi = Fin 11150\<rparr>]"

definition twin_adj :: "edge list list" where
  "twin_adj =
     [[(2, Fin 11600, Some ''Qatar Airways''), (2, Fin 11600, Some ''Qatar Airways'')],
      [],
      [(0, Fin 11600, Some ''Qatar Airways''), (0, Fin 11600, Some ''Qatar Airways'')]]"

section \<open>Properties of the rule table\<close>

lemma excluded_of_simps:
  "excluded_of ''Qatar Airways'' = excluded_qatar"
  "excluded_of ''Emirates'' = excluded_emirates"
  "excluded_of ''Etihad'' = excluded_etihad"
  by (simp_all add: excluded_of_def AIRLINE_EXCLUDED_CITIES_def)

lemma supported_airlines_eq:
  "SUPPORTED_AIRLINES = {''Qatar Airways'', ''Emirates'', ''Etihad''}"
  by (auto simp: SUPPORTED_AIRLINES_def AIRLINE_HUBS_def split: if_splits)

lemma unknown_airline_no_hub: "a \<notin> SUPPORTED_AIRLINES \<Longrightarrow> AIRLINE_HUBS a = None"
  by (auto simp: SUPPORTED_AIRLINES_def)

lemma unknown_airline_excludes_nothing:
  "a \<notin> SUPPORTED_AIRLINES \<Longrightarrow> excluded_of a = {}"
  by (simp add: supported_airlines_eq excluded_of_def AIRLINE_EXCLUDED_CITIES_def)

lemma get_hubs_for_airlines_unknown:
  "a \<in> set as \<Longrightarrow> AIRLINE_HUBS a = None \<Longrightarrow> get_hubs_for_airlines as = Inl ValueError"
proof (induction as)
  case Nil
  then show ?case by simp
next
  case (Cons b bs)
  show ?case
  proof (cases "AIRLINE_HUBS b")
    case None
    then show ?thesis by (simp add: get_hub_def)
  next
    case (Some h)
    with Cons.prems have "a \<in> set bs" by auto
    with Cons have "get_hubs_for_airlines bs = Inl ValueError" by simp
    with Some show ?thesis by (simp add: get_hub_def)
  qed
qed

lemma qatar_core: "excluded_qatar = common_core \<union> {''Lagos''}"
  unfolding excluded_qatar_def common_core_def by (simp add: insert_commute)

lemma emirates_core:
  "excluded_emirates = common_core \<union> {''Zanzibar'', ''Kampala'', ''Lusaka'', ''Harare''}"
  unfolding excluded_emirates_def common_core_def by (simp add: insert_commute)

lemma etihad_core:
  "excluded_etihad = common_core \<union> {''Rio de Janeiro'', ''Sao Paulo'', ''Buenos Aires'',
     ''Lagos'', ''Accra'', ''Cape Town'', ''Zanzibar''}"
  unfolding excluded_etihad_def common_core_def by (simp add: insert_commute)

lemma hubs_not_core: "{''Doha'', ''Dubai'', ''Abu Dhabi''} \<inter> common_core = {}"
  unfolding common_core_def by simp

lemma core_un_int: "(C \<union> A) \<inter> (C \<union> B) = C \<union> (A \<inter> B)"
  by blast

lemma hubs_int_un3:
  "H \<inter> C = {} \<Longrightarrow> H \<inter> A = {} \<Longrightarrow> H \<inter> B = {} \<Longrightarrow> H \<inter> D = {} \<Longrightarrow>
   H \<inter> ((C \<union> A) \<union> (C \<union> B) \<union> (C \<union> D)) = {}"
  by blast

text \<open>
  C5, as stated, fails: \<open>Vancouver\<close> is excluded both by Qatar Airways and by Emirates.
\<close>

theorem exclusion_sets_disjoint_counterexample:
  "''Vancouver'' \<in> excluded_of ''Qatar Airways'' \<and> ''Vancouver'' \<in> excluded_of ''Emirates''
   \<and> ''Qatar Airways'' \<noteq> ''Emirates''"
  by (simp add: excluded_of_simps excluded_qatar_def excluded_emirates_def)

text \<open>
  C5, amended: the exclusion sets overlap. The 24 cities of \<open>common_core\<close> are
  excluded by all three airlines; Qatar Airways and Emirates share nothing else, Qatar
  Airways and Etihad also share Lagos, Emirates and Etihad also share Zanzibar; and no
  exclusion set contains one of the three hubs.
\<close>

theorem exclusion_sets_overlap:
  "excluded_of ''Qatar Airways'' \<inter> excluded_of ''Emirates'' = common_core
   \<and> excluded_of ''Qatar Airways'' \<inter> excluded_of ''Etihad'' = insert ''Lagos'' common_core
   \<and> excluded_of ''Emirates'' \<inter> excluded_of ''Etihad'' = insert ''Zanzibar'' common_core
   \<and> {''Doha'', ''Dubai'', ''Abu Dhabi''} \<inter>
       (excluded_of ''Qatar Airways'' \<union> excluded_of ''Emirates'' \<union> excluded_of ''Etihad'') = {}"
proof (intro conjI)
  show "excluded_of ''Qatar Airways'' \<inter> excluded_of ''Emirates'' = common_core"
    unfolding excluded_of_simps qatar_core emirates_core core_un_int by simp
  show "excluded_of ''Qatar Airways'' \<inter> excluded_of ''Etihad'' = insert ''Lagos'' common_core"
    unfolding excluded_of_simps qatar_core etihad_core core_un_int by simp
  show "excluded_of ''Emirates'' \<inter> excluded_of ''Etihad'' = insert ''Zanzibar'' common_core"
    unfolding excluded_of_simps emirates_core etihad_core core_un_int by simp
  show "{''Doha'', ''Dubai'', ''Abu Dhabi''} \<inter>
       (excluded_of ''Qatar Airways'' \<union> excluded_of ''Emirates'' \<union> excluded_of ''Etihad'') = {}"
    unfolding excluded_of_simps qatar_core emirates_core etihad_core
    by (rule hubs_int_un3 [OF hubs_not_core]) simp_all
qed

text \<open>
  C7, as stated, fails: \<open>airline_serves_city\<close> answers \<open>True\<close> for an airline that is
  not in the rule table.
\<close>

theorem serves_unknown_airline_counterexample:
  "''Lufthansa'' \<notin> SUPPORTED_AIRLINES \<and> airline_serves_city ''Lufthansa'' ''London'' = True"
  by (simp add: supported_airlines_eq airline_serves_city_def excluded_of_def
      AIRLINE_EXCLUDED_CITIES_def)

text \<open>
  C7, amended: for an airline name outside the fixed set of three, the hub lookup raises
  \<open>ValueError\<close>, and so does the hub-set lookup for every list that contains the name;
  the \<open>serves\<close> predicate does not raise: it treats the exclusion set of an unknown
  airline as empty and answers \<open>True\<close> for every city.
\<close>

theorem unknown_airline_behaviour:
  assumes "a \<notin> SUPPORTED_AIRLINES"
  shows "get_hub a = Inl ValueError
    \<and> (a \<in> set as \<longrightarrow> get_hubs_for_airlines as = Inl ValueError)
    \<and> airline_serves_city a c = True"
proof -
  from assms have none: "AIRLINE_HUBS a = None" by (rule unknown_airline_no_hub)
  then have "get_hub a = Inl ValueError" by (simp add: get_hub_def)
  moreover have "a \<in> set as \<longrightarrow> get_hubs_for_airlines as = Inl ValueError"
    using none get_hubs_for_airlines_unknown by blast
  moreover have "airline_serves_city a c = True"
    using assms by (simp add: airline_serves_city_def unknown_airline_excludes_nothing)
  ultimately show ?thesis by blast
qed

theorem unknown_airline_behaviour_witness:
  "''Lufthansa'' \<notin> SUPPORTED_AIRLINES
   \<and> get_hub ''Lufthansa'' = Inl ValueError
   \<and> get_hubs_for_airlines [''Emirates'', ''Lufthansa''] = Inl ValueError
   \<and> airline_serves_city ''Lufthansa'' ''Perth'' = True"
proof -
  have h: "''Lufthansa'' \<notin> SUPPORTED_AIRLINES" by (simp add: supported_airlines_eq)
  show ?thesis
    using h unknown_airline_behaviour [OF h, of "[''Emirates'', ''Lufthansa'']" "''Perth''"]
    by simp
qed

section \<open>Floats and the priority queue\<close>

lemma nonneg_finE:
  assumes "nonneg_fin a" obtains x where "a = Fin x" "0 \<le> x"
  using assms by (cases a) (auto simp: nonneg_fin_def)

lemma nonneg_fin_Fin [simp]: "nonneg_fin (Fin x) = (0 \<le> x)"
  by (simp add: nonneg_fin_def)

lemma nonneg_fin_others [simp]: "\<not> nonneg_fin PInf" "\<not> nonneg_fin NInf" "\<not> nonneg_fin NaN"
  by (simp_all add: nonneg_fin_def)

lemma fle_simps [simp]:
  "fle (Fin a) (Fin b) = (a \<le> b)"
  "fle (Fin a) PInf = True"
  "fle PInf (Fin a) = False"
  "fle PInf PInf = True"
  by (auto simp: fle_def)


lemma ext_cases:
  assumes "ext a" obtains "a = PInf" | x where "a = Fin x" "0 \<le> x"
  using assms unfolding ext_def by (auto elim: nonneg_finE)

lemma ext_simps [simp]: "ext PInf" "ext (Fin x) = (0 \<le> x)" "\<not> ext NaN" "\<not> ext NInf"
  by (simp_all add: ext_def)










lemma fle_PInf: "ext a \<Longrightarrow> fle a PInf"
  by (auto elim!: ext_cases)

lemma fle_PInf_left: "ext a \<Longrightarrow> fle PInf a \<Longrightarrow> a = PInf"
  by (auto elim!: ext_cases)

lemma flt_nonneg_fin: "nonneg_fin a \<Longrightarrow> ext b \<Longrightarrow> flt a b \<Longrightarrow> b \<noteq> a"
  by (auto elim!: ext_cases nonneg_finE)









lemma wf_graph_edge:
  "wf_graph adj \<Longrightarrow> u < length adj \<Longrightarrow> e \<in> set (adj ! u) \<Longrightarrow>
   fst e < length adj \<and> nonneg_fin (fst (snd e))"
  unfolding wf_graph_def using nth_mem by blast

lemma walk_weight_Nil [simp]: "walk_weight a [] = a"
  by (simp add: walk_weight_def)

lemma walk_weight_Cons [simp]: "walk_weight a (e # es) = walk_weight (fadd a (fst (snd e))) es"
  by (simp add: walk_weight_def)




lemma is_path_end_lt:
  "wf_graph adj \<Longrightarrow> is_path adj x p t \<Longrightarrow> x < length adj \<Longrightarrow> t < length adj"
proof (induction p arbitrary: x)
  case Nil then show ?case by simp
next
  case (Cons e es)
  from Cons.prems have "e \<in> set (adj ! x)" "is_path adj (fst e) es t" by auto
  with wf_graph_edge[OF Cons.prems(1,3)] Cons.IH[OF Cons.prems(1)] show ?case by blast
qed






lemma relaxed_Nil [simp]: "relaxed s u []"
  by (simp add: relaxed_def)




















lemma forget_airline_simps [simp]:
  "dist_arr (forget_airline s) = dist_arr s"
  "prev_arr (forget_airline s) = map (map_option fst) (prev_arr s)"
  "heap (forget_airline s) = heap s"
  by (simp_all add: forget_airline_def)





section \<open>The search with source equal to destination\<close>

lemma dijkstra_loop_at_destination:
  assumes "i < n"
  shows "dijkstra_loop adj i (initial_state n i) =
     Some (Inr ((initial_state n i :: astate)\<lparr>heap := []\<rparr>))"
  using assms
  by (subst dijkstra_loop.simps) (simp add: initial_state_def heappop_def)

lemma walk_back_no_prev:
  assumes "i < length prev" "prev ! i = None"
  shows "walk_back prev i acc = Some (Inr (acc @ [i]))"
  using assms by (subst walk_back.simps) simp

text \<open>
  C9: when source and destination are the same city, and that city is in the name-to-index
  mapping (its index being a node of the graph that carries the city's name), the
  airline-aware search returns distance zero, the one-city path and no legs.
\<close>

theorem same_city_trivial:
  assumes "city_to_index city = Some i" and "i < length adj" and "index_to_city i = Some city"
  shows "dijkstra_airline_aware adj city_to_index index_to_city city city airlines =
     Some (Inr (Some (Fin 0, [city], [])))"
proof -
  let ?s = "(initial_state (length adj) i :: astate)\<lparr>heap := []\<rparr>"
  have loop: "dijkstra_loop adj i (initial_state (length adj) i) = Some (Inr ?s)"
    by (rule dijkstra_loop_at_destination[OF assms(2)])
  have wb: "walk_back (prev_arr ?s) i [] = Some (Inr ([] @ [i]))"
    by (rule walk_back_no_prev) (use assms(2) in \<open>simp_all add: initial_state_def\<close>)
  have "reconstruct index_to_city ?s i = Some (Inr (Some (Fin 0, [city], [])))"
    using assms(2,3) wb by (simp add: reconstruct_def initial_state_def)
  with loop assms(1,2) show ?thesis by (simp add: dijkstra_airline_aware_def)
qed

theorem same_city_trivial_witness:
  "[''Doha'' \<mapsto> (0::nat)] ''Doha'' = Some 0 \<and> (0::nat) < length [[] :: edge list]
   \<and> [(0::nat) \<mapsto> ''Doha''] 0 = Some ''Doha''
   \<and> dijkstra_airline_aware [[]] [''Doha'' \<mapsto> 0] [0 \<mapsto> ''Doha''] ''Doha'' ''Doha''
        [''Emirates''] = Some (Inr (Some (Fin 0, [''Doha''], [])))"
  using same_city_trivial [of "[''Doha'' \<mapsto> (0::nat)]" "''Doha''" 0 "[[]]"
      "[(0::nat) \<mapsto> ''Doha'']" "[''Emirates'']"]
  by simp

text \<open>
  C10: the result of the airline-aware search is the same for any two lists passed as
  its \<open>airlines\<close> argument.
\<close>

theorem airlines_parameter_ignored:
  "dijkstra_airline_aware adj city_to_index index_to_city source dest airlines1 =
   dijkstra_airline_aware adj city_to_index index_to_city source dest airlines2"
  by (simp add: dijkstra_airline_aware_def)

section \<open>The graph that build\_graph returns\<close>

lemma fold_enumerate_Cons:
  "fold f (enumerate k (x # xs)) m = fold f (enumerate (Suc k) xs) (f (k, x) m)"
  by simp

lemma fold_city_index_notin:
  assumes f: "\<And>i c m. f (i, c) m = m(c \<mapsto> i)"
  shows "c \<notin> set xs \<Longrightarrow> fold f (enumerate k xs) m c = m c"
proof (induction xs arbitrary: k m)
  case Nil then show ?case by simp
next
  case (Cons x xs)
  from Cons.prems have c: "c \<notin> set xs" "c \<noteq> x" by auto
  have "fold f (enumerate (Suc k) xs) (m(x \<mapsto> k)) c = (m(x \<mapsto> k)) c"
    by (rule Cons.IH[OF c(1)])
  also have "\<dots> = m c" using c(2) by simp
  finally show ?case unfolding fold_enumerate_Cons f .
qed

lemma fold_city_index_in:
  assumes f: "\<And>i c m. f (i, c) m = m(c \<mapsto> i)"
  shows "c \<in> set xs \<Longrightarrow> fold f (enumerate k xs) m c \<noteq> None"
proof (induction xs arbitrary: k m)
  case Nil then show ?case by simp
next
  case (Cons x xs)
  show ?case
  proof (cases "c \<in> set xs")
    case True
    show ?thesis unfolding fold_enumerate_Cons f by (rule Cons.IH[OF True])
  next
    case False
    with Cons.prems have cx: "c = x" by simp
    have "fold f (enumerate (Suc k) xs) (m(x \<mapsto> k)) c = (m(x \<mapsto> k)) c"
      by (rule fold_city_index_notin[of f, OF f False])
    also have "\<dots> = Some k" using cx by simp
    finally show ?thesis unfolding fold_enumerate_Cons f by simp
  qed
qed

lemma fold_city_index_Some:
  assumes f: "\<And>i c m. f (i, c) m = m(c \<mapsto> i)"
  shows "fold f (enumerate k xs) m c = Some i \<Longrightarrow>
   (m c = Some i \<and> c \<notin> set xs) \<or> (k \<le> i \<and> i < k + length xs \<and> xs ! (i - k) = c)"
proof (induction xs arbitrary: k m)
  case Nil then show ?case by simp
next
  case (Cons x xs)
  from Cons.prems have "fold f (enumerate (Suc k) xs) (m(x \<mapsto> k)) c = Some i"
    unfolding fold_enumerate_Cons f .
  from Cons.IH[OF this] consider "(m(x \<mapsto> k)) c = Some i" "c \<notin> set xs"
    | "Suc k \<le> i" "i < Suc k + length xs" "xs ! (i - Suc k) = c" by blast
  then show ?case
  proof cases
    case 1
    then show ?thesis by (cases "c = x") auto
  next
    case 2
    then have "i - k = Suc (i - Suc k)" by arith
    with 2 show ?thesis by simp
  qed
qed

lemma fold_index_city:
  assumes f: "\<And>i c m. f (i, c) m = m(i \<mapsto> c)"
  shows "fold f (enumerate k xs) m i =
     (if k \<le> i \<and> i < k + length xs then Some (xs ! (i - k)) else m i)"
proof (induction xs arbitrary: k m)
  case Nil then show ?case by auto
next
  case (Cons x xs)
  have ih: "fold f (enumerate (Suc k) xs) (m(k \<mapsto> x)) i =
     (if Suc k \<le> i \<and> i < Suc k + length xs then Some (xs ! (i - Suc k)) else (m(k \<mapsto> x)) i)"
    by (rule Cons.IH)
  show ?case
  proof (cases "Suc k \<le> i \<and> i < Suc k + length xs")
    case True
    then have "i - k = Suc (i - Suc k)" by arith
    with True show ?thesis unfolding fold_enumerate_Cons f ih by simp
  next
    case False
    then show ?thesis unfolding fold_enumerate_Cons f ih by auto
  qed
qed

lemma index_city_map_nth:
  "index_city_map cities i = (if i < length cities then Some (cities ! i) else None)"
  unfolding index_city_map_def
  by (subst fold_index_city) simp_all

lemma city_index_map_SomeD:
  assumes "city_index_map cities c = Some i"
  shows "i < length cities \<and> cities ! i = c"
proof -
  have "(Map.empty c = Some i \<and> c \<notin> set cities) \<or>
      (0 \<le> i \<and> i < 0 + length cities \<and> cities ! (i - 0) = c)"
    by (rule fold_city_index_Some[of "\<lambda>(i, c) m. m(c \<mapsto> i)"])
      (use assms in \<open>simp_all add: city_index_map_def\<close>)
  then show ?thesis by simp
qed

lemma city_index_map_dom:
  assumes "c \<in> set cities"
  shows "\<exists>i. city_index_map cities c = Some i"
proof -
  have "fold (\<lambda>(i, c) m. m(c \<mapsto> i)) (enumerate 0 cities) Map.empty c \<noteq> None"
    by (rule fold_city_index_in[OF _ assms]) simp
  then show ?thesis by (auto simp: city_index_map_def)
qed

lemma city_index_map_None: "c \<notin> set cities \<Longrightarrow> city_index_map cities c = None"
  using city_index_map_SomeD[of cities c] by (cases "city_index_map cities c") auto

lemma city_index_map_distinct:
  "distinct cities \<Longrightarrow> i < length cities \<Longrightarrow> city_index_map cities (cities ! i) = Some i"
proof -
  assume d: "distinct cities" and i: "i < length cities"
  from city_index_map_dom[of "cities ! i" cities] i obtain j where
    j: "city_index_map cities (cities ! i) = Some j" by auto
  from city_index_map_SomeD[OF j] have "j < length cities" "cities ! j = cities ! i" by auto
  with d i have "j = i" by (simp add: nth_eq_iff_index_eq)
  with j show ?thesis by simp
qed

lemma city_edges_Nil [simp]: "city_edges df c2i a hub hi [] u = {}"
  by (simp add: city_edges_def)

lemma city_edges_Cons:
  "city_edges df c2i a hub hi (c # cs) u =
     city_edge_pair df c2i a hub hi c u \<union> city_edges df c2i a hub hi cs u"
  by (simp add: city_edges_def)

lemma city_edges_skip:
  "c = hub \<or> \<not> airline_serves_city a c \<or> (\<exists>w. dist_km df hub c = Inr w \<and> feq w PInf) \<Longrightarrow>
   city_edge_pair df c2i a hub hi c u = {}"
  by (auto simp: city_edge_pair_def)

lemma city_edges_single:
  "c \<noteq> hub \<Longrightarrow> airline_serves_city a c \<Longrightarrow> c2i c = Some ci \<Longrightarrow> dist_km df hub c = Inr w \<Longrightarrow>
   \<not> feq w PInf \<Longrightarrow>
   city_edge_pair df c2i a hub hi c u =
     (if u = hi then {(ci, w, Some a)} else {}) \<union> (if u = ci then {(hi, w, Some a)} else {})"
  by (auto simp: city_edge_pair_def)

lemma add_city_edges_sets:
  assumes hi: "hi < n"
    and idx: "\<forall>c\<in>set cs. \<exists>ci. c2i c = Some ci \<and> ci < n"
    and dk: "\<forall>c\<in>set cs. c \<noteq> hub \<longrightarrow> (\<exists>w. dist_km df hub c = Inr w)"
  shows "length adj = n \<Longrightarrow>
    \<exists>adj'. add_city_edges df c2i a hub hi cs adj = Inr adj' \<and> length adj' = n \<and>
      (\<forall>u<n. set (adj' ! u) = set (adj ! u) \<union> city_edges df c2i a hub hi cs u)"
  using idx dk
proof (induction cs arbitrary: adj)
  case Nil
  then show ?case by simp
next
  case (Cons c cs)
  have idx': "\<forall>c\<in>set cs. \<exists>ci. c2i c = Some ci \<and> ci < n"
    and dk': "\<forall>c\<in>set cs. c \<noteq> hub \<longrightarrow> (\<exists>w. dist_km df hub c = Inr w)"
    using Cons.prems by auto
  from Cons.prems obtain ci where ci: "c2i c = Some ci" "ci < n" by auto
  show ?case
  proof (cases "c = hub \<or> \<not> airline_serves_city a c")
    case True
    then have step: "add_city_edges df c2i a hub hi (c # cs) adj = add_city_edges df c2i a hub hi cs adj"
      by auto
    from True have "city_edge_pair df c2i a hub hi c u = {}" for u
      by (intro city_edges_skip) auto
    then have ce: "city_edges df c2i a hub hi (c # cs) u = city_edges df c2i a hub hi cs u" for u
      by (subst city_edges_Cons) simp
    from Cons.IH[OF Cons.prems(1) idx' dk'] show ?thesis unfolding step ce .
  next
    case False
    then have ne: "c \<noteq> hub" and sv: "airline_serves_city a c" by auto
    from Cons.prems ne obtain w where w: "dist_km df hub c = Inr w" by auto
    show ?thesis
    proof (cases "feq w PInf")
      case True
      then have step: "add_city_edges df c2i a hub hi (c # cs) adj = add_city_edges df c2i a hub hi cs adj"
        using ne sv ci w by simp
      from True w have "city_edge_pair df c2i a hub hi c u = {}" for u
        by (intro city_edges_skip) auto
      then have ce: "city_edges df c2i a hub hi (c # cs) u = city_edges df c2i a hub hi cs u" for u
        by (subst city_edges_Cons) simp
      from Cons.IH[OF Cons.prems(1) idx' dk'] show ?thesis unfolding step ce .
    next
      case nf: False
      define adj1 where "adj1 = adj[hi := adj ! hi @ [(ci, w, Some a)]]"
      define adj2 where "adj2 = adj1[ci := adj1 ! ci @ [(hi, w, Some a)]]"
      have len1: "length adj1 = n" and len2: "length adj2 = n"
        using Cons.prems(1) by (simp_all add: adj1_def adj2_def)
      have step: "add_city_edges df c2i a hub hi (c # cs) adj = add_city_edges df c2i a hub hi cs adj2"
        using ne sv ci w nf hi Cons.prems(1) len1
        by (simp add: append_edge_def adj1_def[symmetric] adj2_def[symmetric])
      have set2: "set (adj2 ! u) = set (adj ! u) \<union> city_edge_pair df c2i a hub hi c u" if "u < n" for u
      proof -
        have "set (adj1 ! u) = set (adj ! u) \<union> (if u = hi then {(ci, w, Some a)} else {})"
          using that Cons.prems(1) by (auto simp: adj1_def nth_list_update)
        moreover have "set (adj2 ! u) = set (adj1 ! u) \<union> (if u = ci then {(hi, w, Some a)} else {})"
          using that len1 by (auto simp: adj2_def nth_list_update)
        ultimately show ?thesis
          unfolding city_edges_single[where ?c2i = c2i, OF ne sv ci(1) w nf] by auto
      qed
      from Cons.IH[OF len2 idx' dk'] obtain adj' where
        adj': "add_city_edges df c2i a hub hi cs adj2 = Inr adj'" "length adj' = n"
          "\<forall>u<n. set (adj' ! u) = set (adj2 ! u) \<union> city_edges df c2i a hub hi cs u" by blast
      have "\<forall>u<n. set (adj' ! u) = set (adj ! u) \<union> city_edges df c2i a hub hi (c # cs) u"
      proof (intro allI impI)
        fix u assume u: "u < n"
        show "set (adj' ! u) = set (adj ! u) \<union> city_edges df c2i a hub hi (c # cs) u"
          using adj'(3) u set2[OF u] by (subst city_edges_Cons) auto
      qed
      with adj'(1,2) step show ?thesis by simp
    qed
  qed
qed

lemma airline_edges_Nil [simp]: "airline_edges df c2i cities [] u = {}"
  by (simp add: airline_edges_def)

lemma airline_edges_Cons:
  "airline_edges df c2i cities (a # as) u =
     airline_edges df c2i cities [a] u \<union> airline_edges df c2i cities as u"
  by (auto simp: airline_edges_def)

lemma airline_edges_single:
  "get_hub a = Inr hub \<Longrightarrow>
   airline_edges df c2i cities [a] u =
     (case c2i hub of None \<Rightarrow> {} | Some hi \<Rightarrow> city_edges df c2i a hub hi cities u)"
  by (auto simp: airline_edges_def split: option.splits)

lemma first_row_in: "c \<in> set (map City df) \<Longrightarrow> \<exists>r. first_row df c = Inr r \<and> r \<in> set df \<and> City r = c"
proof -
  assume "c \<in> set (map City df)"
  then obtain r where "r \<in> set df" "City r = c" by auto
  then have "r \<in> set (filter (\<lambda>r. City r = c) df)" by simp
  then obtain x xs where f: "filter (\<lambda>r. City r = c) df = x # xs"
    by (cases "filter (\<lambda>r. City r = c) df") auto
  then have "x \<in> set (filter (\<lambda>r. City r = c) df)" by simp
  then have "x \<in> set df" "City x = c" by auto
  with f show ?thesis by (auto simp: first_row_def)
qed

lemma dist_km_total:
  "hub \<in> set (map City df) \<Longrightarrow> c \<in> set (map City df) \<Longrightarrow> \<exists>w. dist_km df hub c = Inr w"
  using first_row_in[of hub df] first_row_in[of c df]
  by (auto simp: dist_km_def)

lemma add_airline_edges_sets:
  assumes cities: "cities = map City df" and c2i: "c2i = city_index_map cities"
    and n: "n = length cities"
  shows "set as \<subseteq> SUPPORTED_AIRLINES \<Longrightarrow> length adj = n \<Longrightarrow>
    \<exists>adj'. add_airline_edges df c2i cities as adj = Inr adj' \<and> length adj' = n \<and>
      (\<forall>u<n. set (adj' ! u) = set (adj ! u) \<union> airline_edges df c2i cities as u)"
proof (induction as arbitrary: adj)
  case Nil
  then show ?case by simp
next
  case (Cons a as)
  from Cons.prems(1) obtain hub where hub: "get_hub a = Inr hub"
    by (auto simp: SUPPORTED_AIRLINES_def get_hub_def)
  have sup: "set as \<subseteq> SUPPORTED_AIRLINES" using Cons.prems(1) by simp
  show ?case
  proof (cases "c2i hub")
    case None
    then have step: "add_airline_edges df c2i cities (a # as) adj = add_airline_edges df c2i cities as adj"
      using hub by simp
    have ae: "airline_edges df c2i cities (a # as) u = airline_edges df c2i cities as u" for u
      by (subst airline_edges_Cons) (simp add: airline_edges_single[OF hub] None)
    from Cons.IH[OF sup Cons.prems(2)] show ?thesis unfolding step ae .
  next
    case (Some hi)
    from city_index_map_SomeD[of cities hub hi] Some c2i n
    have hi: "hi < n" and hubc: "hub \<in> set (map City df)" using cities by auto
    have idx: "\<forall>c\<in>set cities. \<exists>ci. c2i c = Some ci \<and> ci < n"
      using city_index_map_dom city_index_map_SomeD c2i n by blast
    have dk: "\<forall>c\<in>set cities. c \<noteq> hub \<longrightarrow> (\<exists>w. dist_km df hub c = Inr w)"
      using dist_km_total[OF hubc] cities by blast
    from add_city_edges_sets[OF hi idx dk Cons.prems(2)] obtain adj1 where
      adj1: "add_city_edges df c2i a hub hi cities adj = Inr adj1" "length adj1 = n"
        "\<forall>u<n. set (adj1 ! u) = set (adj ! u) \<union> city_edges df c2i a hub hi cities u" by blast
    from Cons.IH[OF sup adj1(2)] obtain adj' where
      adj': "add_airline_edges df c2i cities as adj1 = Inr adj'" "length adj' = n"
        "\<forall>u<n. set (adj' ! u) = set (adj1 ! u) \<union> airline_edges df c2i cities as u" by blast
    have step: "add_airline_edges df c2i cities (a # as) adj = Inr adj'"
      using hub Some adj1(1) adj'(1) by simp
    have "\<forall>u<n. set (adj' ! u) = set (adj ! u) \<union> airline_edges df c2i cities (a # as) u"
    proof (intro allI impI)
      fix u assume u: "u < n"
      show "set (adj' ! u) = set (adj ! u) \<union> airline_edges df c2i cities (a # as) u"
        using adj'(3) adj1(3) u
        by (subst airline_edges_Cons) (auto simp: airline_edges_single[OF hub] Some)
    qed
    with step adj'(2) show ?thesis by simp
  qed
qed

lemma build_graph_edges:
  assumes "set airlines \<subseteq> SUPPORTED_AIRLINES"
  shows "\<exists>adj. build_graph df airlines =
      Inr (adj, city_index_map (map City df), index_city_map (map City df), df) \<and>
    length adj = length df \<and>
    (\<forall>u<length df. set (adj ! u) =
        airline_edges df (city_index_map (map City df)) (map City df) airlines u)"
proof -
  from add_airline_edges_sets[OF refl refl refl assms, of "replicate (length (map City df)) []" df]
  obtain adj where adj: "add_airline_edges df (city_index_map (map City df)) (map City df) airlines
        (replicate (length df) []) = Inr adj" "length adj = length df"
    "\<forall>u<length df. set (adj ! u) = airline_edges df (city_index_map (map City df)) (map City df) airlines u"
    by auto
  have "\<not> (\<exists>a\<in>set airlines. a \<notin> SUPPORTED_AIRLINES)" using assms by auto
  then have "build_graph df airlines =
      Inr (adj, city_index_map (map City df), index_city_map (map City df), df)"
    using adj(1) by (simp add: build_graph_def Let_def)
  with adj(2,3) show ?thesis by blast
qed

lemma build_graph_Inr_supported:
  "build_graph df airlines = Inr g \<Longrightarrow> set airlines \<subseteq> SUPPORTED_AIRLINES"
  by (auto simp: build_graph_def split: if_splits)

lemma build_graph_result:
  assumes "build_graph df airlines = Inr (adj, c2i, i2c, df')"
  shows "c2i = city_index_map (map City df)" "i2c = index_city_map (map City df)"
    "length adj = length df"
    "\<forall>u<length df. set (adj ! u) = airline_edges df c2i (map City df) airlines u"
proof -
  from build_graph_edges[OF build_graph_Inr_supported[OF assms], of df] assms
  show "c2i = city_index_map (map City df)" "i2c = index_city_map (map City df)"
    "length adj = length df"
    "\<forall>u<length df. set (adj ! u) = airline_edges df c2i (map City df) airlines u"
    by auto
qed


















lemma demo_serves:
  "airline_serves_city ''Qatar Airways'' ''London''" "airline_serves_city ''Qatar Airways'' ''Mumbai''"
  "airline_serves_city ''Emirates'' ''London''" "airline_serves_city ''Emirates'' ''Mumbai''"
  "airline_serves_city a ''Doha''" "airline_serves_city a ''Dubai''"
  by (simp_all add: airline_serves_city_def excluded_of_simps excluded_qatar_def excluded_emirates_def)

lemma demo_c2i_simps:
  "demo_c2i ''Doha'' = Some 0" "demo_c2i ''Dubai'' = Some 1" "demo_c2i ''London'' = Some 2"
  "demo_c2i ''Mumbai'' = Some 3"
  by (simp_all add: demo_c2i_def city_index_map_def demo_table_def demo_row_def)

lemma demo_build_qatar:
  "build_graph demo_table [''Qatar Airways''] = Inr (demo_adj_qatar, demo_c2i, demo_i2c, demo_table)"
proof -
  have dk: "dist_km demo_table ''Doha'' ''Dubai'' = Inr (Fin 380)"
    "dist_km demo_table ''Doha'' ''London'' = Inr (Fin 5200)"
    "dist_km demo_table ''Doha'' ''Mumbai'' = Inr (Fin 2300)"
    by (simp_all add: dist_km_def first_row_def demo_table_def demo_row_def)
  have cities: "map City demo_table = [''Doha'', ''Dubai'', ''London'', ''Mumbai'']"
    by (simp add: demo_table_def demo_row_def)
  have "add_airline_edges demo_table demo_c2i [''Doha'', ''Dubai'', ''London'', ''Mumbai'']
      [''Qatar Airways''] [[], [], [], []] = Inr demo_adj_qatar"
    by (simp add: get_hub_def AIRLINE_HUBS_def demo_c2i_simps demo_serves dk append_edge_def
        demo_adj_qatar_def)
  then show ?thesis
    by (simp add: build_graph_def supported_airlines_eq Let_def cities demo_c2i_def[symmetric]
        demo_i2c_def[symmetric] del: add_airline_edges.simps)
      (simp add: demo_c2i_def demo_i2c_def cities numeral_eq_Suc)
qed














section \<open>The edge rule of build\_graph\<close>

lemma get_hub_cases:
  "get_hub a = Inr hub \<Longrightarrow> hub = ''Doha'' \<or> hub = ''Dubai'' \<or> hub = ''Abu Dhabi''"
  by (auto simp: get_hub_def AIRLINE_HUBS_def split: if_splits)

lemma dist_km_hub:
  assumes "get_hub a = Inr hub" "first_row df hub = Inr rh" "first_row df c = Inr rc" "c \<noteq> hub"
  shows "dist_km df hub c = Inr (hub_distance hub rc)"
  using get_hub_cases[OF assms(1)] assms(2,3,4)
  by (auto simp: dist_km_def hub_distance_def)

lemma first_row_distinct:
  assumes "distinct (map City df)" "i < length df"
  shows "first_row df (City (df ! i)) = Inr (df ! i)"
proof -
  have "City (df ! i) \<in> set (map City df)" using assms(2) by auto
  from first_row_in[OF this] obtain r where r: "first_row df (City (df ! i)) = Inr r"
    "r \<in> set df" "City r = City (df ! i)" by blast
  have "inj_on City (set df)" using assms(1) by (simp add: distinct_map)
  with r(2,3) assms(2) have "r = df ! i" by (auto dest: inj_onD)
  with r(1) show ?thesis by simp
qed

lemma airline_edges_iff:
  "((v, w, l) \<in> airline_edges df c2i cities airlines u) =
     (\<exists>a hub hi c ci. a \<in> set airlines \<and> get_hub a = Inr hub \<and> c2i hub = Some hi \<and>
        c \<in> set cities \<and> c \<noteq> hub \<and> airline_serves_city a c \<and> c2i c = Some ci \<and>
        dist_km df hub c = Inr w \<and> \<not> feq w PInf \<and> l = Some a \<and>
        ((u = hi \<and> v = ci) \<or> (u = ci \<and> v = hi)))"
  by (simp add: airline_edges_def city_edges_def city_edge_pair_def) blast

lemma airline_edges_distinct:
  assumes dis: "distinct (map City df)" and u: "u < length df"
  shows "((v, w, l) \<in> airline_edges df (city_index_map (map City df)) (map City df) airlines u)
     = hub_edge df airlines u v w l"
proof
  let ?cities = "map City df"
  let ?c2i = "city_index_map ?cities"
  assume "(v, w, l) \<in> airline_edges df ?c2i ?cities airlines u"
  then obtain a hub hi c ci where a: "a \<in> set airlines" and hub: "get_hub a = Inr hub"
    and hi: "?c2i hub = Some hi" and c: "c \<in> set ?cities" "c \<noteq> hub"
    and sv: "airline_serves_city a c" and ci: "?c2i c = Some ci"
    and dk: "dist_km df hub c = Inr w" and nf: "\<not> feq w PInf" and l: "l = Some a"
    and uv: "(u = hi \<and> v = ci) \<or> (u = ci \<and> v = hi)"
    unfolding airline_edges_iff by blast
  from city_index_map_SomeD[OF hi] have hi': "hi < length df" "City (df ! hi) = hub" by auto
  from city_index_map_SomeD[OF ci] have ci': "ci < length df" "City (df ! ci) = c" by auto
  have ne: "ci \<noteq> hi" using c(2) hi'(2) ci'(2) by auto
  have "dist_km df hub c = Inr (hub_distance hub (df ! ci))"
    using dist_km_hub[OF hub _ _ c(2)] first_row_distinct[OF dis hi'(1)]
      first_row_distinct[OF dis ci'(1)] hi'(2) ci'(2) by simp
  with dk have w: "w = hub_distance (City (df ! hi)) (df ! ci)" using hi'(2) by simp
  show "hub_edge df airlines u v w l"
    unfolding hub_edge_def using a hi' ci' ne hub sv w nf l uv by blast
next
  let ?cities = "map City df"
  let ?c2i = "city_index_map ?cities"
  assume "hub_edge df airlines u v w l"
  then obtain a h c where a: "a \<in> set airlines" and h: "h < length df" and c: "c < length df"
    and hub: "get_hub a = Inr (City (df ! h))" and ne: "c \<noteq> h"
    and sv: "airline_serves_city a (City (df ! c))"
    and w: "w = hub_distance (City (df ! h)) (df ! c)" and nf: "\<not> feq w PInf"
    and l: "l = Some a" and uv: "(u = h \<and> v = c) \<or> (u = c \<and> v = h)"
    unfolding hub_edge_def by blast
  have hi: "?c2i (City (df ! h)) = Some h"
    using city_index_map_distinct[OF dis, of h] h by simp
  have ci: "?c2i (City (df ! c)) = Some c"
    using city_index_map_distinct[OF dis, of c] c by simp
  have cne: "City (df ! c) \<noteq> City (df ! h)"
    using dis ne h c by (simp add: distinct_conv_nth)
  have cin: "City (df ! c) \<in> set ?cities" using c by auto
  have dk: "dist_km df (City (df ! h)) (City (df ! c)) = Inr w"
    using dist_km_hub[OF hub first_row_distinct[OF dis h] first_row_distinct[OF dis c] cne] w
    by simp
  show "(v, w, l) \<in> airline_edges df ?c2i ?cities airlines u"
    unfolding airline_edges_iff using a hub hi cin cne sv ci dk nf l uv by blast
qed

lemma hub_edge_sym: "hub_edge df airlines u v w l \<Longrightarrow> hub_edge df airlines v u w l"
  unfolding hub_edge_def by blast

lemma hub_edge_bounds: "hub_edge df airlines u v w l \<Longrightarrow> u < length df \<and> v < length df"
  unfolding hub_edge_def by blast

lemma hub_edge_hub:
  "hub_edge df airlines u v w l \<Longrightarrow>
   \<exists>a. a \<in> set airlines \<and> (get_hub a = Inr (City (df ! u)) \<or> get_hub a = Inr (City (df ! v)))"
  unfolding hub_edge_def by blast

text \<open>
  C2, amended: for a table whose city names are pairwise distinct and a list of supported
  airlines, \<open>build_graph\<close> returns an adjacency structure with one node per row in which
  \<open>(v, w, l)\<close> is an edge of node \<open>u\<close> if and only if one of the two rows is the hub of a
  requested airline \<open>A\<close>, the other a different city that \<open>A\<close> serves, \<open>w\<close> is that city's
  distance to the hub as the table has it, \<open>w\<close> is not \<open>+inf\<close> (a NaN, negative or
  \<open>-inf\<close> distance gives an edge too), and \<open>l\<close> is \<open>A\<close>; every edge is there in both
  directions with the same weight and label; and one end of every edge is the hub of a
  requested airline.
\<close>

theorem build_graph_edge_rule:
  assumes sup: "set airlines \<subseteq> SUPPORTED_AIRLINES" and dis: "distinct (map City df)"
  shows "\<exists>adj. build_graph df airlines =
        Inr (adj, city_index_map (map City df), index_city_map (map City df), df) \<and>
      length adj = length df \<and>
      (\<forall>u v w l. u < length df \<longrightarrow>
         ((v, w, l) \<in> set (adj ! u)) = hub_edge df airlines u v w l) \<and>
      (\<forall>u v w l. u < length df \<longrightarrow> (v, w, l) \<in> set (adj ! u) \<longrightarrow>
         v < length df \<and> (u, w, l) \<in> set (adj ! v)) \<and>
      (\<forall>u v w l. u < length df \<longrightarrow> (v, w, l) \<in> set (adj ! u) \<longrightarrow>
         (\<exists>a. a \<in> set airlines \<and>
            (get_hub a = Inr (City (df ! u)) \<or> get_hub a = Inr (City (df ! v)))))"
proof -
  from build_graph_edges[OF sup, of df] obtain adj where
    adj: "build_graph df airlines =
        Inr (adj, city_index_map (map City df), index_city_map (map City df), df)"
      "length adj = length df"
      "\<forall>u<length df. set (adj ! u) =
          airline_edges df (city_index_map (map City df)) (map City df) airlines u" by blast
  have iff: "((v, w, l) \<in> set (adj ! u)) = hub_edge df airlines u v w l" if "u < length df"
    for u v w l
    using adj(3) that airline_edges_distinct[OF dis that] by simp
  have sym: "v < length df \<and> (u, w, l) \<in> set (adj ! v)"
    if "u < length df" "(v, w, l) \<in> set (adj ! u)" for u v w l
  proof -
    from that iff have e: "hub_edge df airlines u v w l" by simp
    from hub_edge_bounds[OF e] have v: "v < length df" by simp
    with hub_edge_sym[OF e] iff[OF v] show ?thesis by simp
  qed
  have hub: "\<exists>a. a \<in> set airlines \<and>
            (get_hub a = Inr (City (df ! u)) \<or> get_hub a = Inr (City (df ! v)))"
    if "u < length df" "(v, w, l) \<in> set (adj ! u)" for u v w l
    using that iff hub_edge_hub by blast
  from adj(1,2) iff sym hub show ?thesis by blast
qed

lemma demo_distinct: "distinct (map City demo_table)"
  by (simp add: demo_table_def demo_row_def)

lemma qatar_supported: "set [''Qatar Airways''] \<subseteq> SUPPORTED_AIRLINES"
  by (simp add: supported_airlines_eq)

theorem build_graph_edge_rule_witness:
  "set [''Qatar Airways''] \<subseteq> SUPPORTED_AIRLINES \<and> distinct (map City demo_table)
   \<and> build_graph demo_table [''Qatar Airways''] =
        Inr (demo_adj_qatar, city_index_map (map City demo_table),
             index_city_map (map City demo_table), demo_table)
   \<and> length demo_adj_qatar = length demo_table
   \<and> (2, Fin 5200, Some ''Qatar Airways'') \<in> set (demo_adj_qatar ! 0)
   \<and> hub_edge demo_table [''Qatar Airways''] 0 2 (Fin 5200) (Some ''Qatar Airways'')
   \<and> (0, Fin 5200, Some ''Qatar Airways'') \<in> set (demo_adj_qatar ! 2)
   \<and> get_hub ''Qatar Airways'' = Inr (City (demo_table ! 0))"
proof -
  from build_graph_edge_rule [OF qatar_supported demo_distinct] obtain adj where
    adj: "build_graph demo_table [''Qatar Airways''] =
        Inr (adj, city_index_map (map City demo_table),
             index_city_map (map City demo_table), demo_table)"
      "length adj = length demo_table"
      "\<forall>u v w l. u < length demo_table \<longrightarrow>
         ((v, w, l) \<in> set (adj ! u)) = hub_edge demo_table [''Qatar Airways''] u v w l"
      "\<forall>u v w l. u < length demo_table \<longrightarrow> (v, w, l) \<in> set (adj ! u) \<longrightarrow>
         v < length demo_table \<and> (u, w, l) \<in> set (adj ! v)"
    by blast
  from adj(1) demo_build_qatar have eq: "adj = demo_adj_qatar" by simp
  have len: "0 < length demo_table" by (simp add: demo_table_def)
  have e: "(2, Fin 5200, Some ''Qatar Airways'') \<in> set (demo_adj_qatar ! 0)"
    by (simp add: demo_adj_qatar_def)
  with adj(3) len eq have he: "hub_edge demo_table [''Qatar Airways''] 0 2 (Fin 5200) (Some ''Qatar Airways'')"
    by blast
  from adj(4) len e eq have other: "(0, Fin 5200, Some ''Qatar Airways'') \<in> set (demo_adj_qatar ! 2)"
    by blast
  have hub: "get_hub ''Qatar Airways'' = Inr (City (demo_table ! 0))"
    by (simp add: get_hub_def AIRLINE_HUBS_def demo_table_def demo_row_def)
  show ?thesis
    using qatar_supported demo_distinct adj(1,2) eq e he other hub by simp
qed

text \<open>
  C2, as stated, fails: in the cleaned table \<open>nan_table\<close> the distance from London to Doha
  is unknown (NaN), and \<open>build_graph\<close> still inserts the edge between Doha and London, in
  both directions, with weight NaN: the guard only skips a distance equal to \<open>+inf\<close>.
\<close>

theorem edge_with_unknown_distance_counterexample:
  "clean_airport_data nan_table = nan_table
   \<and> build_graph nan_table [''Qatar Airways''] =
       Inr ([[(1, NaN, Some ''Qatar Airways'')], [(0, NaN, Some ''Qatar Airways'')]],
            city_index_map (map City nan_table), index_city_map (map City nan_table), nan_table)
   \<and> airline_serves_city ''Qatar Airways'' ''London''
   \<and> City (nan_table ! 0) = ''Doha'' \<and> City (nan_table ! 1) = ''London''
   \<and> Distance_to_Doha (nan_table ! 1) = NaN"
proof -
  have clean: "clean_airport_data nan_table = nan_table"
    by (simp add: clean_airport_data_def dropna_def nan_table_def)
  have dk: "dist_km nan_table ''Doha'' ''London'' = Inr NaN"
    by (simp add: dist_km_def first_row_def nan_table_def)
  have cities: "map City nan_table = [''Doha'', ''London'']"
    by (simp add: nan_table_def)
  have c2i: "city_index_map [''Doha'', ''London''] ''Doha'' = Some 0"
    "city_index_map [''Doha'', ''London''] ''London'' = Some 1"
    by (simp_all add: city_index_map_def)
  have "add_airline_edges nan_table (city_index_map [''Doha'', ''London'']) [''Doha'', ''London'']
      [''Qatar Airways''] [[], []] =
      Inr [[(1, NaN, Some ''Qatar Airways'')], [(0, NaN, Some ''Qatar Airways'')]]"
    by (simp add: get_hub_def AIRLINE_HUBS_def c2i demo_serves dk append_edge_def)
  then have "build_graph nan_table [''Qatar Airways''] =
       Inr ([[(1, NaN, Some ''Qatar Airways'')], [(0, NaN, Some ''Qatar Airways'')]],
            city_index_map (map City nan_table), index_city_map (map City nan_table), nan_table)"
    by (simp add: build_graph_def supported_airlines_eq Let_def cities numeral_eq_Suc
        del: add_airline_edges.simps)
  with clean demo_serves(1) show ?thesis by (simp add: nan_table_def)
qed

text \<open>
  C6: the dictionaries of \<open>build_graph\<close> are meant to be a bijection between city names and
  \<open>0..n-1\<close>, also for a cleaned table with one city name in two countries. The code does
  not deliver it: \<open>twin_table\<close> passes the cleaning step unchanged, and \<open>build_graph\<close> maps
  the name Springfield to index 2 only, names both node 1 and node 2 Springfield, leaves
  node 1 without edges and gives node 2 (whose distance to Doha is 10800) twice the edge of
  weight 11600 that belongs to node 1.
\<close>

theorem duplicate_city_names_collide:
  "clean_airport_data twin_table = twin_table
   \<and> build_graph twin_table [''Qatar Airways''] =
       Inr (twin_adj, city_index_map (map City twin_table),
            index_city_map (map City twin_table), twin_table)
   \<and> city_index_map (map City twin_table) ''Springfield'' = Some 2
   \<and> index_city_map (map City twin_table) 1 = Some ''Springfield''
   \<and> index_city_map (map City twin_table) 2 = Some ''Springfield''
   \<and> Distance_to_Doha (twin_table ! 2) = Fin 10800"
proof -
  have clean: "clean_airport_data twin_table = twin_table"
    by (simp add: clean_airport_data_def dropna_def twin_table_def)
  have dk: "dist_km twin_table ''Doha'' ''Springfield'' = Inr (Fin 11600)"
    by (simp add: dist_km_def first_row_def twin_table_def)
  have cities: "map City twin_table = [''Doha'', ''Springfield'', ''Springfield'']"
    by (simp add: twin_table_def)
  have c2i: "city_index_map [''Doha'', ''Springfield'', ''Springfield''] ''Doha'' = Some 0"
    "city_index_map [''Doha'', ''Springfield'', ''Springfield''] ''Springfield'' = Some 2"
    by (simp_all add: city_index_map_def)
  have sv: "airline_serves_city ''Qatar Airways'' ''Springfield''"
    by (simp add: airline_serves_city_def excluded_of_simps excluded_qatar_def)
  have "add_airline_edges twin_table (city_index_map [''Doha'', ''Springfield'', ''Springfield''])
      [''Doha'', ''Springfield'', ''Springfield''] [''Qatar Airways''] [[], [], []] = Inr twin_adj"
    by (simp add: get_hub_def AIRLINE_HUBS_def c2i sv dk append_edge_def twin_adj_def)
  then have "build_graph twin_table [''Qatar Airways''] =
       Inr (twin_adj, city_index_map (map City twin_table),
            index_city_map (map City twin_table), twin_table)"
    by (simp add: build_graph_def supported_airlines_eq Let_def cities numeral_eq_Suc
        del: add_airline_edges.simps)
  with clean c2i(2) show ?thesis
    by (simp add: cities index_city_map_nth) (simp add: twin_table_def)
qed

text \<open>
  For a table whose city names are pairwise distinct the two dictionaries are inverse to
  each other: the names of the table are the keys, and row \<open>i\<close> has index \<open>i\<close>.
\<close>

lemma build_graph_maps_distinct:
  assumes "build_graph df airlines = Inr (adj, c2i, i2c, df')" and "distinct (map City df)"
  shows "dom c2i = set (map City df)"
    and "\<forall>i<length df. c2i (City (df ! i)) = Some i \<and> i2c i = Some (City (df ! i))"
proof -
  note r = build_graph_result[OF assms(1)]
  show "dom c2i = set (map City df)"
  proof (intro set_eqI iffI)
    fix c assume "c \<in> dom c2i"
    then show "c \<in> set (map City df)"
      unfolding r(1) using city_index_map_None[of c "map City df"] by (cases "c \<in> set (map City df)") auto
  next
    fix c assume "c \<in> set (map City df)"
    from city_index_map_dom[OF this] show "c \<in> dom c2i" unfolding r(1) by auto
  qed
  show "\<forall>i<length df. c2i (City (df ! i)) = Some i \<and> i2c i = Some (City (df ! i))"
    unfolding r(1,2) using city_index_map_distinct[OF assms(2)]
    by (auto simp: index_city_map_nth)
qed

text \<open>
  The searches are verified for finite, non-negative weights. An edge of weight NaN, as
  \<open>build_graph\<close> makes of \<open>nan_table\<close>, is never relaxed (\<open>new_d < dist[v]\<close> is false for
  NaN), so the search does not follow it.
\<close>

lemma nan_edge_never_relaxed:
  "dijkstra_airline_aware
     [[(1, NaN, Some ''Qatar Airways'')], [(0, NaN, Some ''Qatar Airways'')]]
     (city_index_map (map City nan_table)) (index_city_map (map City nan_table))
     ''Doha'' ''London'' [''Qatar Airways''] = Some (Inr None)"
proof -
  have c2i: "city_index_map (map City nan_table) ''Doha'' = Some 0"
    "city_index_map (map City nan_table) ''London'' = Some 1"
    by (simp_all add: city_index_map_def nan_table_def)
  show ?thesis
    by (simp add: dijkstra_airline_aware_def c2i initial_state_def dijkstra_loop.simps
        heappop_def entry_lt_def heappush_def Let_def reconstruct_def numeral_eq_Suc)
qed

end
